theory Spec2Isabelle
  imports Complex_Main "HOL-Library.Sublist" "HOL-Library.AList"
begin

section \<open>Values, routes and exceptions\<close>

text \<open>
  The request executor of \<^verbatim>\<open>hikari/net/http_client.py\<close> (\<^verbatim>\<open>HTTPClient._request\<close> and
  \<^verbatim>\<open>HTTPClient._handle_bad_response\<close>) is embedded as a function over a script of
  transport exchanges. Python values that the executor inspects are JSON values; Python's
  \<^verbatim>\<open>None\<close> and the JSON \<^verbatim>\<open>null\<close> are the same value \<open>JNull\<close>. Python floats are
  modelled as exact rationals: rounding is not modelled.
\<close>

type_synonym instant = rat

datatype json =
    JNull
  | JBool bool
  | JInt int
  | JFloat rat
  | JStr string
  | JArr "json list"
  | JObj "(string \<times> json) list"

datatype compiled_route = CompiledRoute (route_method: string) (route_path: string)

text \<open>
  Exceptions are values. \<open>ClientHTTPError st r route m c\<close> stands for
  \<^verbatim>\<open>errors.ClientHTTPError(f"{status}: {resp.reason}", compiled_route, message, code)\<close>:
  the status and the reason phrase are kept apart instead of being formatted into one string.
\<close>

datatype error =
    RuntimeError string
  | KeyError string
  | ValueError
  | TypeError
  | UnicodeDecodeError
  | OverflowError
  | OtherError string
  | BadRequestHTTPError compiled_route json int
  | UnauthorizedHTTPError compiled_route json int
  | ForbiddenHTTPError compiled_route json int
  | NotFoundHTTPError compiled_route json int
  | ClientHTTPError int string compiled_route json int
  | ServerHTTPError string compiled_route json int

section \<open>The client and its constructor\<close>

record client =
  base_url :: string
  json_deserialize :: "string \<Rightarrow> error + json"
  token :: "string option"

definition AUTHENTICATION_SCHEMES :: "string list" where
  "AUTHENTICATION_SCHEMES = [''Bearer'', ''Bot'']"

text \<open>\<^verbatim>\<open>str.startswith\<close> with a tuple of prefixes.\<close>

definition startswith :: "string \<Rightarrow> string list \<Rightarrow> bool" where
  "startswith s ps = list_ex (\<lambda>p. prefix p s) ps"

text \<open>\<^verbatim>\<open>sep.join(xs)\<close>.\<close>

fun join :: "string \<Rightarrow> string list \<Rightarrow> string" where
  "join sep [] = []"
| "join sep [x] = x"
| "join sep (x # y # ys) = x @ sep @ join sep (y # ys)"

text \<open>
  \<^verbatim>\<open>HTTPClient.__init__\<close> (lines 59-97). \<open>this_type\<close> is \<^verbatim>\<open>type(self).__name__\<close>. The
  base class constructor and the two rate limiters it builds live outside this file and
  are not part of the check on the token.
\<close>

definition HTTPClient_init ::
  "string \<Rightarrow> string \<Rightarrow> (string \<Rightarrow> error + json) \<Rightarrow> string option \<Rightarrow> error + client" where
  "HTTPClient_init this_type url deserialize tok =
     (case tok of
        None \<Rightarrow> Inr \<lparr>base_url = url, json_deserialize = deserialize, token = None\<rparr>
      | Some t \<Rightarrow>
          if \<not> startswith t AUTHENTICATION_SCHEMES then
            Inl (RuntimeError (''Any token passed to '' @ this_type @ '' should begin with ''
                   @ join '' or '' AUTHENTICATION_SCHEMES))
          else Inr \<lparr>base_url = url, json_deserialize = deserialize, token = Some t\<rparr>)"

text \<open>
  The request headers built at lines 124-133: a Python dict, kept as an association list
  in insertion order.
\<close>

definition request_headers ::
  "string option \<Rightarrow> string option \<Rightarrow> (string \<times> string) list option \<Rightarrow> (string \<times> string) list" where
  "request_headers tok reason hdrs =
     (let h0 = [(''X-RateLimit-Precision'', ''millisecond'')];
          h1 = (case tok of None \<Rightarrow> h0 | Some t \<Rightarrow> AList.update ''Authorization'' t h0);
          h2 = (case reason of None \<Rightarrow> h1 | Some r \<Rightarrow> AList.update ''X-Audit-Log-Reason'' r h1)
      in case hdrs of None \<Rightarrow> h2 | Some hs \<Rightarrow> fold (\<lambda>(k, v). AList.update k v) hs h2)"

section \<open>Library functions the executor calls\<close>

text \<open>
  The Python built-ins and standard-library functions applied to strings are parameters of
  the model: \<^verbatim>\<open>int(str)\<close> and \<^verbatim>\<open>float(str)\<close> (\<open>None\<close> is \<^verbatim>\<open>ValueError\<close>),
  \<^verbatim>\<open>datetime.datetime.fromtimestamp\<close>, \<^verbatim>\<open>email.utils.parsedate_to_datetime\<close>, and
  \<^verbatim>\<open>bytes.decode\<close> (\<open>None\<close> is \<^verbatim>\<open>UnicodeDecodeError\<close>).
\<close>

record pylib =
  int_of_str :: "string \<Rightarrow> int option"
  float_of_str :: "string \<Rightarrow> rat option"
  fromtimestamp :: "rat \<Rightarrow> error + instant"
  parsedate_to_datetime :: "string \<Rightarrow> error + instant"
  bytes_decode :: "string \<Rightarrow> string option"

text \<open>Truth value of a Python object, as the \<^verbatim>\<open>if\<close> at line 220 takes it.\<close>

fun truthy :: "json \<Rightarrow> bool" where
  "truthy JNull = False"
| "truthy (JBool b) = b"
| "truthy (JInt i) = (i \<noteq> 0)"
| "truthy (JFloat r) = (r \<noteq> 0)"
| "truthy (JStr s) = (s \<noteq> [])"
| "truthy (JArr xs) = (xs \<noteq> [])"
| "truthy (JObj kvs) = (kvs \<noteq> [])"

text \<open>
  \<^verbatim>\<open>body[k]\<close> for a string key: a dict raises \<^verbatim>\<open>KeyError\<close> on a missing key, every other
  value (\<^verbatim>\<open>None\<close>, a list, a string, a number) raises \<^verbatim>\<open>TypeError\<close>.
\<close>

fun subscript :: "json \<Rightarrow> string \<Rightarrow> error + json" where
  "subscript (JObj kvs) k = (case map_of kvs k of None \<Rightarrow> Inl (KeyError k) | Some v \<Rightarrow> Inr v)"
| "subscript _ k = Inl TypeError"

text \<open>
  \<^verbatim>\<open>float(i)\<close> on an \<^verbatim>\<open>int\<close> raises \<^verbatim>\<open>OverflowError\<close> when the nearest double is not
  finite: the largest double is \<open>2 ^ 1024 - 2 ^ 971\<close>, and rounding to nearest reaches
  \<open>2 ^ 1024\<close> from \<open>2 ^ 1024 - 2 ^ 970\<close> on.
\<close>

definition float_overflows :: "int \<Rightarrow> bool" where
  "float_overflows i \<longleftrightarrow> 2 ^ 1024 - 2 ^ 970 \<le> \<bar>i\<bar>"

text \<open>
  \<^verbatim>\<open>int(v)\<close> and \<^verbatim>\<open>float(v)\<close> on a decoded JSON value. A JSON float is a finite
  rational here, so the conversions of infinities and NaN have no counterpart.
\<close>

fun py_int :: "pylib \<Rightarrow> json \<Rightarrow> error + int" where
  "py_int P (JInt i) = Inr i"
| "py_int P (JFloat r) = Inr (if r < 0 then - \<lfloor>- r\<rfloor> else \<lfloor>r\<rfloor>)"
| "py_int P (JBool b) = Inr (if b then 1 else 0)"
| "py_int P (JStr s) = (case int_of_str P s of None \<Rightarrow> Inl ValueError | Some i \<Rightarrow> Inr i)"
| "py_int P _ = Inl TypeError"

fun py_float :: "pylib \<Rightarrow> json \<Rightarrow> error + rat" where
  "py_float P (JInt i) = (if float_overflows i then Inl OverflowError else Inr (of_int i))"
| "py_float P (JFloat r) = Inr r"
| "py_float P (JBool b) = Inr (if b then 1 else 0)"
| "py_float P (JStr s) = (case float_of_str P s of None \<Rightarrow> Inl ValueError | Some r \<Rightarrow> Inr r)"
| "py_float P _ = Inl TypeError"

section \<open>Requests, responses and the executor's state\<close>

text \<open>
  A streamed resource of \<^verbatim>\<open>re_seekable_resources\<close>: its bytes and its read position.
  \<^verbatim>\<open>resource.seek(0)\<close> puts the position at the start.
\<close>

record resource =
  content :: string
  pos :: nat

definition seek0 :: "resource \<Rightarrow> resource" where
  "seek0 r = r\<lparr>pos := 0\<rparr>"

text \<open>
  Modelled from the spec: the transport layer (\<^verbatim>\<open>base_http_client\<close> and the HTTP engine
  under it are not among the sources). A transport call reads every streamed resource from
  its current position; what it is given to send is the rest of the stream, and it leaves
  the position \<open>n\<close> bytes further on, at most at the end.
\<close>

definition unread :: "resource \<Rightarrow> string" where
  "unread r = drop (pos r) (content r)"

definition consume :: "nat \<Rightarrow> resource \<Rightarrow> resource" where
  "consume n r = r\<lparr>pos := min (pos r + n) (length (content r))\<rparr>"

text \<open>
  Modelled from the spec: \<^verbatim>\<open>compiled_route.create_url(base_url)\<close> of the absent
  \<^verbatim>\<open>routes\<close> module, the base URL followed by the compiled path.
\<close>

definition create_url :: "compiled_route \<Rightarrow> string \<Rightarrow> string" where
  "create_url route base = base @ route_path route"

text \<open>The arguments of one call of \<^verbatim>\<open>_request\<close> (lines 111-122).\<close>

record call_args =
  arg_route :: compiled_route
  arg_headers :: "(string \<times> string) list option"
  arg_query :: "(string \<times> string) list option"
  arg_form_body :: "string option"
  arg_json_body :: "json option"
  arg_reason :: "string option"
  arg_resources :: "resource list"

text \<open>What a response of the transport carries (lines 175-196).\<close>

record response =
  resp_status :: int
  resp_reason :: string
  resp_raw_body :: string
  resp_headers :: "(string \<times> string) list"

text \<open>
  One entry of the script the executor runs against: the response of one transport call
  and how far that call read into the streamed resources.
\<close>

datatype exchange = Exchange (consumed: nat) (reply: response)

text \<open>The call handed to the transport at lines 166-174: method, URL, headers, JSON body,
  query and form body.\<close>

datatype transport_call =
  TransportCall string string "(string \<times> string) list" "json option"
    "(string \<times> string) list option" "string option"

text \<open>
  Every effect of the executor on its collaborators is an event of a trace, in program
  order: the bucket manager's \<^verbatim>\<open>acquire\<close> (line 123), \<^verbatim>\<open>seek(0)\<close> on the resource with a
  given index (line 141), the call of the global limiter's \<^verbatim>\<open>acquire\<close> and the
  \<^verbatim>\<open>asyncio.gather\<close> that awaits the bucket future together with it (line 147), the
  transport call with the streamed payloads it is given (line 166), the bucket manager's
  \<^verbatim>\<open>update_rate_limits\<close> (line 214), the global limiter's \<^verbatim>\<open>throttle\<close> (line 222) and
  \<^verbatim>\<open>asyncio.sleep\<close> (line 254).
\<close>

datatype event =
    BucketAcquire compiled_route
  | Seek nat
  | GlobalAcquire
  | AwaitPermits
  | Send transport_call "string list"
  | UpdateRateLimits compiled_route string string int int instant instant
  | Throttle rat
  | Sleep rat

text \<open>
  Modelled from the spec: \<^verbatim>\<open>ratelimits.ExponentialBackOff\<close> is not among the sources. A
  generator is the sequence of delays it has yet to yield; \<^verbatim>\<open>next\<close> on the empty sequence
  is the exhaustion signal, \<^verbatim>\<open>asyncio.TimeoutError\<close>.
\<close>

record exec_state =
  backoff :: "rat list"
  resources :: "resource list"
  trace :: "event list"

text \<open>What one call of \<^verbatim>\<open>_request\<close> fixes before its loop (lines 123-135).\<close>

record request =
  rq_route :: compiled_route
  rq_real_hash :: string
  rq_headers :: "(string \<times> string) list"
  rq_query :: "(string \<times> string) list option"
  rq_form_body :: "string option"
  rq_json_body :: "json option"

text \<open>How one pass through the loop body ends: \<^verbatim>\<open>continue\<close>, \<^verbatim>\<open>return\<close> or \<^verbatim>\<open>raise\<close>.\<close>

datatype step =
    Continue exec_state
  | Return json exec_state
  | Raise error exec_state

text \<open>
  How the call ends on a finite script: it returns, it raises, or the script is used up
  with the executor at the top of its loop.
\<close>

datatype outcome = Returned json | Raised error | Pending

section \<open>The executor\<close>

text \<open>\<^verbatim>\<open>headers.get(key, default)\<close>.\<close>

definition hget :: "(string \<times> string) list \<Rightarrow> string \<Rightarrow> string \<Rightarrow> string" where
  "hget hs k d = (case map_of hs k of None \<Rightarrow> d | Some v \<Rightarrow> v)"

record rate_headers =
  hdr_limit :: int
  hdr_remaining :: int
  hdr_bucket :: string
  hdr_reset_date :: instant
  hdr_now_date :: instant
  hdr_content_type :: string

text \<open>Lines 188-194, in the order of the source; each conversion may raise.\<close>

definition read_headers :: "pylib \<Rightarrow> response \<Rightarrow> error + rate_headers" where
  "read_headers P resp =
     (let hs = resp_headers resp in
      case int_of_str P (hget hs ''X-RateLimit-Limit'' ''1'') of
        None \<Rightarrow> Inl ValueError
      | Some limit_v \<Rightarrow>
      (case int_of_str P (hget hs ''X-RateLimit-Remaining'' ''1'') of
        None \<Rightarrow> Inl ValueError
      | Some remaining_v \<Rightarrow>
      (let bkt = hget hs ''X-RateLimit-Bucket'' ''None'' in
       case float_of_str P (hget hs ''X-RateLimit-Reset'' ''0'') of
        None \<Rightarrow> Inl ValueError
      | Some reset \<Rightarrow>
      (case fromtimestamp P reset of
        Inl e \<Rightarrow> Inl e
      | Inr reset_date \<Rightarrow>
      (case map_of hs ''Date'' of
        None \<Rightarrow> Inl (KeyError ''Date'')
      | Some d \<Rightarrow>
      (case parsedate_to_datetime P d of
        Inl e \<Rightarrow> Inl e
      | Inr now_date \<Rightarrow>
      (case map_of hs ''Content-Type'' of
        None \<Rightarrow> Inl (KeyError ''Content-Type'')
      | Some ct \<Rightarrow>
          Inr \<lparr>hdr_limit = limit_v, hdr_remaining = remaining_v, hdr_bucket = bkt,
               hdr_reset_date = reset_date, hdr_now_date = now_date,
               hdr_content_type = ct\<rparr>)))))))"

text \<open>
  \<^verbatim>\<open>_handle_bad_response\<close> (lines 250-256): the next delay of the generator is slept, or
  the exhaustion signal becomes \<^verbatim>\<open>ServerHTTPError(reason, route, message, status)\<close>.
\<close>

definition handle_bad_response ::
  "string \<Rightarrow> compiled_route \<Rightarrow> json \<Rightarrow> int \<Rightarrow> exec_state \<Rightarrow> error + exec_state" where
  "handle_bad_response why route message st s =
     (case backoff s of
        d # ds \<Rightarrow> Inr (s\<lparr>backoff := ds, trace := trace s @ [Sleep d]\<rparr>)
      | [] \<Rightarrow> Inl (ServerHTTPError why route message st))"

text \<open>
  Lines 198-212. \<open>Inl\<close> leaves the pass (the \<^verbatim>\<open>continue\<close> of line 210, or a raise),
  \<open>Inr\<close> is the value of \<^verbatim>\<open>body\<close> the pass goes on with. The store \<^verbatim>\<open>body = None\<close> under
  \<^verbatim>\<open>status == 204\<close> (lines 198-199) is followed by an \<^verbatim>\<open>if\<close>, not an \<^verbatim>\<open>elif\<close>: every
  branch of that \<^verbatim>\<open>if\<close> stores \<^verbatim>\<open>body\<close> again or leaves the pass, so the value stored
  for 204 is never read; \<open>body204\<close> is that store.
\<close>

definition decode_content ::
  "client \<Rightarrow> pylib \<Rightarrow> request \<Rightarrow> response \<Rightarrow> string \<Rightarrow> exec_state \<Rightarrow> step + json" where
  "decode_content C P rq resp ct s =
     (let body204 = (if resp_status resp = 204 then Some JNull else None) in
      if ct = ''application/json'' then
        (case json_deserialize C (resp_raw_body resp) of
           Inl e \<Rightarrow> Inl (Raise e s)
         | Inr b \<Rightarrow> Inr b)
      else if ct = ''text/plain'' \<or> ct = ''text/html'' then
        (case bytes_decode P (resp_raw_body resp) of
           None \<Rightarrow> Inl (Raise UnicodeDecodeError s)
         | Some txt \<Rightarrow>
            (case handle_bad_response (''Received unexpected response of type '' @ ct)
                    (rq_route rq) (JStr txt) (resp_status resp) s of
               Inl e \<Rightarrow> Inl (Raise e s)
             | Inr s' \<Rightarrow> Inl (Continue s')))
      else Inr JNull)"

text \<open>
  Lines 226-230: the \<^verbatim>\<open>try\<close> catches \<^verbatim>\<open>ValueError\<close> and \<^verbatim>\<open>KeyError\<close> only; a
  \<^verbatim>\<open>TypeError\<close> leaves it.
\<close>

definition caught :: "error \<Rightarrow> error + (json \<times> int)" where
  "caught e = (case e of ValueError \<Rightarrow> Inr (JStr [], - 1)
                 | KeyError k \<Rightarrow> Inr (JStr [], - 1)
                 | _ \<Rightarrow> Inl e)"

definition error_details :: "pylib \<Rightarrow> json \<Rightarrow> error + (json \<times> int)" where
  "error_details P body =
     (case subscript body ''message'' of
        Inl e \<Rightarrow> caught e
      | Inr message \<Rightarrow>
         (case subscript body ''code'' of
            Inl e \<Rightarrow> caught e
          | Inr c \<Rightarrow>
             (case py_int P c of
                Inl e \<Rightarrow> caught e
              | Inr code \<Rightarrow> Inr (message, code))))"

text \<open>Lines 218-248: what the pass does with the status once \<^verbatim>\<open>body\<close> is known.\<close>

definition classify :: "pylib \<Rightarrow> request \<Rightarrow> response \<Rightarrow> json \<Rightarrow> exec_state \<Rightarrow> step" where
  "classify P rq resp body s =
     (let st = resp_status resp; route = rq_route rq in
      if st = 429 then
        (case subscript body ''global'' of
           Inl e \<Rightarrow> Raise e s
         | Inr g \<Rightarrow>
            if truthy g then
              (case subscript body ''retry_after'' of
                 Inl e \<Rightarrow> Raise e s
               | Inr v \<Rightarrow>
                  (case py_float P v of
                     Inl e \<Rightarrow> Raise e s
                   | Inr ms \<Rightarrow> Continue (s\<lparr>trace := trace s @ [Throttle (ms / 1000)]\<rparr>)))
            else Continue s)
      else if st \<ge> 400 then
        (case error_details P body of
           Inl e \<Rightarrow> Raise e s
         | Inr (message, code) \<Rightarrow>
            if st = 400 then Raise (BadRequestHTTPError route message code) s
            else if st = 401 then Raise (UnauthorizedHTTPError route message code) s
            else if st = 403 then Raise (ForbiddenHTTPError route message code) s
            else if st = 404 then Raise (NotFoundHTTPError route message code) s
            else if st < 500 then
              Raise (ClientHTTPError st (resp_reason resp) route message code) s
            else
              (case handle_bad_response ''Received a server error response'' route message st s of
                 Inl e \<Rightarrow> Raise e s
               | Inr s' \<Rightarrow> Continue s'))
      else Return body s)"

definition update_event :: "request \<Rightarrow> rate_headers \<Rightarrow> event" where
  "update_event rq h =
     UpdateRateLimits (rq_route rq) (rq_real_hash rq) (hdr_bucket h) (hdr_remaining h)
       (hdr_limit h) (hdr_now_date h) (hdr_reset_date h)"

text \<open>Lines 175-248: one response, from the reading of its headers to the end of the pass.\<close>

definition handle_response :: "client \<Rightarrow> pylib \<Rightarrow> request \<Rightarrow> response \<Rightarrow> exec_state \<Rightarrow> step" where
  "handle_response C P rq resp s =
     (case read_headers P resp of
        Inl e \<Rightarrow> Raise e s
      | Inr h \<Rightarrow>
         (case decode_content C P rq resp (hdr_content_type h) s of
            Inl stp \<Rightarrow> stp
          | Inr body \<Rightarrow>
              classify P rq resp body (s\<lparr>trace := trace s @ [update_event rq h]\<rparr>)))"

text \<open>
  Lines 138-174: every resource is rewound, the global permit is asked for and awaited
  together with the bucket future, and the transport is called.
\<close>

definition the_call :: "client \<Rightarrow> request \<Rightarrow> transport_call" where
  "the_call C rq =
     TransportCall (route_method (rq_route rq)) (create_url (rq_route rq) (base_url C))
       (rq_headers rq) (rq_json_body rq) (rq_query rq) (rq_form_body rq)"

definition send :: "client \<Rightarrow> request \<Rightarrow> nat \<Rightarrow> exec_state \<Rightarrow> exec_state" where
  "send C rq n s =
     (let rs = map seek0 (resources s) in
      s\<lparr>resources := map (consume n) rs,
        trace := trace s @ map Seek [0..<length rs]
                   @ [GlobalAcquire, AwaitPermits, Send (the_call C rq) (map unread rs)]\<rparr>)"

text \<open>The \<^verbatim>\<open>while True\<close> of line 137, run against a script of exchanges.\<close>

fun request_loop ::
  "client \<Rightarrow> pylib \<Rightarrow> request \<Rightarrow> exchange list \<Rightarrow> exec_state \<Rightarrow> outcome \<times> exec_state" where
  "request_loop C P rq [] s = (Pending, s)"
| "request_loop C P rq (x # xs) s =
     (case handle_response C P rq (reply x) (send C rq (consumed x) s) of
        Continue s' \<Rightarrow> request_loop C P rq xs s'
      | Return b s' \<Rightarrow> (Returned b, s')
      | Raise e s' \<Rightarrow> (Raised e, s'))"

text \<open>
  \<^verbatim>\<open>_request\<close> (lines 111-248). \<open>real_hash\<close> is the hash the bucket manager's \<^verbatim>\<open>acquire\<close>
  returns with its future, \<open>delays\<close> the delays the fresh \<^verbatim>\<open>ExponentialBackOff\<close> of line
  135 will yield before it signals exhaustion.
\<close>

definition the_request :: "client \<Rightarrow> string \<Rightarrow> call_args \<Rightarrow> request" where
  "the_request C real_hash a =
     \<lparr>rq_route = arg_route a, rq_real_hash = real_hash,
      rq_headers = request_headers (token C) (arg_reason a) (arg_headers a),
      rq_query = arg_query a, rq_form_body = arg_form_body a, rq_json_body = arg_json_body a\<rparr>"

definition initial_state :: "call_args \<Rightarrow> rat list \<Rightarrow> exec_state" where
  "initial_state a delays =
     \<lparr>backoff = delays, resources = arg_resources a, trace = [BucketAcquire (arg_route a)]\<rparr>"

definition request ::
  "client \<Rightarrow> pylib \<Rightarrow> string \<Rightarrow> rat list \<Rightarrow> call_args \<Rightarrow> exchange list \<Rightarrow> outcome \<times> exec_state" where
  "request C P real_hash delays a xs =
     request_loop C P (the_request C real_hash a) xs (initial_state a delays)"

section \<open>Reading traces\<close>

fun state_of :: "step \<Rightarrow> exec_state" where
  "state_of (Continue s) = s"
| "state_of (Return b s) = s"
| "state_of (Raise e s) = s"

fun is_sleep :: "event \<Rightarrow> bool" where
  "is_sleep (Sleep d) = True"
| "is_sleep _ = False"


fun is_bucket_acquire :: "event \<Rightarrow> bool" where
  "is_bucket_acquire (BucketAcquire r) = True"
| "is_bucket_acquire _ = False"

text \<open>
  The permits a transport call needs, read off a trace: a call is \<open>Permitted\<close> when the
  global limiter's \<^verbatim>\<open>acquire\<close> has been called and awaited, together with the bucket
  future, since the previous call. A call made in any other situation is a violation, which
  is never left again.
\<close>

datatype gate = Idle | Asked | Permitted | Violated

fun gate_step :: "gate \<Rightarrow> event \<Rightarrow> gate" where
  "gate_step Violated e = Violated"
| "gate_step g GlobalAcquire = Asked"
| "gate_step Asked AwaitPermits = Permitted"
| "gate_step Permitted (Send c ps) = Idle"
| "gate_step g (Send c ps) = Violated"
| "gate_step g e = g"

definition gate_run :: "gate \<Rightarrow> event list \<Rightarrow> gate" where
  "gate_run g es = foldl gate_step g es"

text \<open>The events a pass emits once the response is there: update, throttle and sleep.\<close>

fun after_reply :: "event \<Rightarrow> bool" where
  "after_reply (UpdateRateLimits r h b rm lm n rs) = True"
| "after_reply (Throttle d) = True"
| "after_reply (Sleep d) = True"
| "after_reply _ = False"

text \<open>
  The rewinding of \<open>n\<close> streamed resources, read off a trace: the number of resources
  rewound, in their order, since the previous transport call, or \<open>None\<close> once a call has
  been made with a resource not rewound.
\<close>

fun rewind_step :: "nat \<Rightarrow> nat option \<Rightarrow> event \<Rightarrow> nat option" where
  "rewind_step n None e = None"
| "rewind_step n (Some k) (Seek i) = (if i = k then Some (Suc k) else None)"
| "rewind_step n (Some k) (Send c ps) = (if k = n then Some 0 else None)"
| "rewind_step n (Some k) e = Some k"

definition rewind_run :: "nat \<Rightarrow> event list \<Rightarrow> nat option" where
  "rewind_run n es = foldl (rewind_step n) (Some 0) es"

text \<open>
  What one attempt adds to the trace before its response is there: the rewinding of every
  resource, the two permits, and the transport call with the resources from their start.
\<close>

definition attempt_events :: "client \<Rightarrow> request \<Rightarrow> exec_state \<Rightarrow> event list" where
  "attempt_events C rq s =
     map Seek [0..<length (resources s)]
       @ [GlobalAcquire, AwaitPermits, Send (the_call C rq) (map content (resources s))]"

text \<open>
  What holds of the state between two passes of the loop: for the streamed resources, that
  their contents are the ones passed in, that every transport call so far was given them
  whole, and that each was rewound before every call; for the permits, that the bucket
  manager's \<^verbatim>\<open>acquire\<close> was called once, at the very start, that no transport call was
  made without the permits, that every call was the same, and that the backoff generator
  has yielded exactly the delays slept so far.
\<close>

definition rewound :: "string list \<Rightarrow> exec_state \<Rightarrow> bool" where
  "rewound cs s \<longleftrightarrow>
     map content (resources s) = cs
     \<and> (\<forall>c ps. Send c ps \<in> set (trace s) \<longrightarrow> ps = cs)
     \<and> rewind_run (length cs) (trace s) = Some 0"

definition has_sent :: "event \<Rightarrow> exec_state \<Rightarrow> bool" where
  "has_sent e s \<longleftrightarrow> e \<in> set (trace s)"

definition permitted :: "compiled_route \<Rightarrow> transport_call \<Rightarrow> rat list \<Rightarrow> exec_state \<Rightarrow> bool" where
  "permitted route call delays s \<longleftrightarrow>
     (\<exists>rest. trace s = BucketAcquire route # rest \<and> filter is_bucket_acquire rest = [])
     \<and> gate_run Idle (trace s) = Idle
     \<and> (\<forall>c ps. Send c ps \<in> set (trace s) \<longrightarrow> c = call)
     \<and> backoff s = drop (length (filter is_sleep (trace s))) delays"


text \<open>
  The message and the code of an error body in the words of the specification: the two
  entries of the body, the code as an integer, or the empty message and the sentinel code
  \<open>-1\<close> when an entry is missing or the code is no integer.
\<close>

definition spec_details :: "pylib \<Rightarrow> (string \<times> json) list \<Rightarrow> json \<times> int" where
  "spec_details P kvs =
     (case map_of kvs ''message'' of
        None \<Rightarrow> (JStr [], - 1)
      | Some m \<Rightarrow>
         (case map_of kvs ''code'' of
            None \<Rightarrow> (JStr [], - 1)
          | Some c \<Rightarrow> (case py_int P c of Inr n \<Rightarrow> (m, n) | Inl e \<Rightarrow> (JStr [], - 1))))"

text \<open>
  A server error with a usable body: a status of 500 or more on a response whose headers
  can be read and whose \<^verbatim>\<open>application/json\<close> body decodes to an object.
\<close>

definition object_error :: "client \<Rightarrow> pylib \<Rightarrow> response \<Rightarrow> bool" where
  "object_error C P resp \<longleftrightarrow>
     500 \<le> resp_status resp
     \<and> (\<exists>h kvs. read_headers P resp = Inr h \<and> hdr_content_type h = ''application/json''
           \<and> json_deserialize C (resp_raw_body resp) = Inr (JObj kvs)
           \<and> (\<forall>m c. map_of kvs ''message'' = Some m \<and> map_of kvs ''code'' = Some c \<longrightarrow>
                 py_int P c \<noteq> Inl TypeError))"

section \<open>Concrete inputs\<close>

text \<open>
  The inputs the examples below are run on. The library functions are given on the strings
  these inputs contain and fail elsewhere; \<^verbatim>\<open>json.loads\<close> is given on four bodies and
  raises its decoding error (a \<^verbatim>\<open>ValueError\<close>) elsewhere, as it does on the empty body.
\<close>

definition ex_lib :: pylib where
  "ex_lib =
     \<lparr>int_of_str = (\<lambda>s. if s = ''1'' then Some 1 else if s = ''5'' then Some 5 else None),
      float_of_str = (\<lambda>s. if s = ''0'' then Some 0 else None),
      fromtimestamp = (\<lambda>r. Inr r),
      parsedate_to_datetime =
        (\<lambda>s. if s = ''Wed, 01 Jan 2020 00:00:00 GMT'' then Inr 1577836800 else Inl TypeError),
      bytes_decode = Some\<rparr>"

definition ex_loads :: "string \<Rightarrow> error + json" where
  \<open>ex_loads s =
     (if s = ''{"global": true, "retry_after": 1500}'' then
        Inr (JObj [(''global'', JBool True), (''retry_after'', JInt 1500)])
      else if s = ''{"global": false, "retry_after": 250}'' then
        Inr (JObj [(''global'', JBool False), (''retry_after'', JInt 250)])
      else if s = ''{"message": "Unknown Channel", "code": 10003}'' then
        Inr (JObj [(''message'', JStr ''Unknown Channel''), (''code'', JInt 10003)])
      else if s = ''{"url": "wss://gateway.discord.gg"}'' then
        Inr (JObj [(''url'', JStr ''wss://gateway.discord.gg'')])
      else Inl ValueError)\<close>

definition ex_client :: client where
  "ex_client =
     \<lparr>base_url = ''https://discordapp.com/api/v6'', json_deserialize = ex_loads,
      token = Some ''Bot abc''\<rparr>"

definition ex_route :: compiled_route where
  "ex_route = CompiledRoute ''GET'' ''/gateway''"

definition ex_args :: call_args where
  "ex_args =
     \<lparr>arg_route = ex_route, arg_headers = None, arg_query = None, arg_form_body = None,
      arg_json_body = None, arg_reason = None, arg_resources = []\<rparr>"

text \<open>A response with a date, a content type, and no rate-limit header.\<close>

definition ex_response :: "int \<Rightarrow> string \<Rightarrow> string \<Rightarrow> response" where
  "ex_response st ct raw =
     \<lparr>resp_status = st, resp_reason = ''reason'', resp_raw_body = raw,
      resp_headers = [(''Date'', ''Wed, 01 Jan 2020 00:00:00 GMT''), (''Content-Type'', ct)]\<rparr>"

definition ex_request :: request where
  "ex_request = the_request ex_client ''hash'' ex_args"

definition ex_call :: transport_call where
  "ex_call =
     TransportCall ''GET'' ''https://discordapp.com/api/v6/gateway''
       [(''X-RateLimit-Precision'', ''millisecond''), (''Authorization'', ''Bot abc'')]
       None None None"

definition ex_update :: event where
  "ex_update = UpdateRateLimits ex_route ''hash'' ''None'' 1 1 1577836800 0"

text \<open>The same call with one streamed resource of three bytes, its read position at 2.\<close>

definition ex_upload :: call_args where
  "ex_upload = ex_args\<lparr>arg_resources := [\<lparr>content = ''abc'', pos = 2\<rparr>]\<rparr>"

section \<open>Constructor: the check on the token\<close>

lemma startswith_schemes:
  "startswith t AUTHENTICATION_SCHEMES \<longleftrightarrow> prefix ''Bearer'' t \<or> prefix ''Bot'' t"
  by (simp add: startswith_def AUTHENTICATION_SCHEMES_def)

lemma request_headers_no_token:
  "map_of (request_headers None reason None) ''Authorization'' = None"
  by (cases reason) (simp_all add: request_headers_def)

text \<open>
  C10. Constructing the client raises \<^verbatim>\<open>RuntimeError\<close> exactly when a token is given that
  begins with neither \<^verbatim>\<open>Bearer\<close> nor \<^verbatim>\<open>Bot\<close>; nothing else is raised by the check. A
  \<^verbatim>\<open>None\<close> token is accepted and stored, and the headers the executor then builds (the
  caller passing none of its own) carry no \<^verbatim>\<open>Authorization\<close> entry, whereas a stored
  token is attached under that name.
\<close>

theorem init_token_check:
  "((\<exists>e. HTTPClient_init cls url jd tok = Inl e) \<longleftrightarrow>
      (\<exists>t. tok = Some t \<and> \<not> prefix ''Bearer'' t \<and> \<not> prefix ''Bot'' t))
   \<and> ((\<exists>e. HTTPClient_init cls url jd tok = Inl e) \<longleftrightarrow>
      (\<exists>m. HTTPClient_init cls url jd tok = Inl (RuntimeError m)))
   \<and> HTTPClient_init cls url jd None = Inr \<lparr>base_url = url, json_deserialize = jd, token = None\<rparr>
   \<and> map_of (request_headers None reason None) ''Authorization'' = None
   \<and> map_of (request_headers (Some t') reason None) ''Authorization'' = Some t'"
proof -
  have a: "(\<exists>e. HTTPClient_init cls url jd tok = Inl e) \<longleftrightarrow>
      (\<exists>t. tok = Some t \<and> \<not> prefix ''Bearer'' t \<and> \<not> prefix ''Bot'' t)"
    by (cases tok) (auto simp: HTTPClient_init_def startswith_schemes)
  have b: "(\<exists>e. HTTPClient_init cls url jd tok = Inl e) \<longleftrightarrow>
      (\<exists>m. HTTPClient_init cls url jd tok = Inl (RuntimeError m))"
    by (cases tok) (auto simp: HTTPClient_init_def)
  have c: "HTTPClient_init cls url jd None = Inr \<lparr>base_url = url, json_deserialize = jd, token = None\<rparr>"
    by (simp add: HTTPClient_init_def)
  have d: "map_of (request_headers (Some t') reason None) ''Authorization'' = Some t'"
    by (cases reason) (simp_all add: request_headers_def)
  show ?thesis
    by (intro conjI) (rule a b c d request_headers_no_token)+
qed

theorem init_token_check_witness:
  "(\<exists>e. HTTPClient_init ''HTTPClient'' ''https://discordapp.com/api/v6'' (\<lambda>s. Inr JNull) (Some ''Basic abc'') = Inl e)
   \<and> \<not> (\<exists>e. HTTPClient_init ''HTTPClient'' ''https://discordapp.com/api/v6'' (\<lambda>s. Inr JNull) (Some ''Bot abc'') = Inl e)"
proof -
  have bad: "\<exists>t. Some ''Basic abc'' = Some t \<and> \<not> prefix ''Bearer'' t \<and> \<not> prefix ''Bot'' t"
    by simp
  have good: "\<not> (\<exists>t. Some ''Bot abc'' = Some t \<and> \<not> prefix ''Bearer'' t \<and> \<not> prefix ''Bot'' t)"
    by simp
  note iff = init_token_check [THEN conjunct1, of "''HTTPClient''" "''https://discordapp.com/api/v6''" "\<lambda>s. Inr JNull"]
  have "\<exists>e. HTTPClient_init ''HTTPClient'' ''https://discordapp.com/api/v6'' (\<lambda>s. Inr JNull) (Some ''Basic abc'') = Inl e"
    using bad by (rule iff [THEN iffD2])
  moreover have "\<not> (\<exists>e. HTTPClient_init ''HTTPClient'' ''https://discordapp.com/api/v6'' (\<lambda>s. Inr JNull) (Some ''Bot abc'') = Inl e)"
    using good iff [of "Some ''Bot abc''"] by (rule_tac notI) (drule iffD1, assumption, erule notE, assumption)
  ultimately show ?thesis by (rule conjI)
qed

section \<open>The concrete inputs, evaluated\<close>

lemma ex_headers: "read_headers ex_lib (ex_response st ct raw) =
  Inr \<lparr>hdr_limit = 1, hdr_remaining = 1, hdr_bucket = ''None'', hdr_reset_date = 0,
       hdr_now_date = 1577836800, hdr_content_type = ct\<rparr>"
  by (simp add: read_headers_def ex_lib_def ex_response_def hget_def)

lemma ex_the_call: "the_call ex_client ex_request = ex_call"
  by (simp add: the_call_def ex_request_def the_request_def ex_client_def ex_args_def ex_route_def
      create_url_def request_headers_def ex_call_def)

lemma ex_update_event:
  "update_event ex_request \<lparr>hdr_limit = 1, hdr_remaining = 1, hdr_bucket = ''None'',
      hdr_reset_date = 0, hdr_now_date = 1577836800, hdr_content_type = ct\<rparr> = ex_update"
  by (simp add: update_event_def ex_request_def the_request_def ex_args_def ex_update_def)

section \<open>Running the executor on the concrete inputs\<close>

lemma ex_response_fields:
  "resp_status (ex_response st ct raw) = st"
  "resp_reason (ex_response st ct raw) = ''reason''"
  "resp_raw_body (ex_response st ct raw) = raw"
  by (simp_all add: ex_response_def)

lemma ex_request_fields:
  "rq_route ex_request = ex_route"
  "the_request ex_client ''hash'' ex_args = ex_request"
  by (simp_all add: ex_request_def the_request_def ex_args_def)

lemma ex_initial:
  "initial_state ex_args ds = \<lparr>backoff = ds, resources = [], trace = [BucketAcquire ex_route]\<rparr>"
  by (simp add: initial_state_def ex_args_def)

lemma ex_send:
  "send ex_client ex_request n \<lparr>backoff = ds, resources = [], trace = es\<rparr> =
     \<lparr>backoff = ds, resources = [], trace = es @ [GlobalAcquire, AwaitPermits, Send ex_call []]\<rparr>"
  by (simp add: send_def ex_the_call)

lemma ex_loads_values:
  \<open>json_deserialize ex_client ''{"global": true, "retry_after": 1500}'' =
      Inr (JObj [(''global'', JBool True), (''retry_after'', JInt 1500)])\<close>
  \<open>json_deserialize ex_client ''{"global": false, "retry_after": 250}'' =
      Inr (JObj [(''global'', JBool False), (''retry_after'', JInt 250)])\<close>
  \<open>json_deserialize ex_client ''{"message": "Unknown Channel", "code": 10003}'' =
      Inr (JObj [(''message'', JStr ''Unknown Channel''), (''code'', JInt 10003)])\<close>
  \<open>json_deserialize ex_client ''{"url": "wss://gateway.discord.gg"}'' =
      Inr (JObj [(''url'', JStr ''wss://gateway.discord.gg'')])\<close>
  \<open>json_deserialize ex_client [] = Inl ValueError\<close>
  by (simp_all add: ex_client_def ex_loads_def)

lemma ex_decode: "bytes_decode ex_lib raw = Some raw"
  by (simp add: ex_lib_def)

lemmas ex_run = request_def ex_request_fields ex_initial ex_send handle_response_def ex_headers
  ex_update_event decode_content_def ex_response_fields ex_loads_values ex_decode
  handle_bad_response_def classify_def error_details_def caught_def

section \<open>One pass of the loop, by content type\<close>

lemma text_pass:
  assumes "read_headers P resp = Inr h"
    and "hdr_content_type h = ''text/plain'' \<or> hdr_content_type h = ''text/html''"
    and "bytes_decode P (resp_raw_body resp) = Some txt"
  shows "handle_response C P rq resp s =
     (case backoff s of
        d # ds \<Rightarrow> Continue (s\<lparr>backoff := ds, trace := trace s @ [Sleep d]\<rparr>)
      | [] \<Rightarrow> Raise (ServerHTTPError (''Received unexpected response of type '' @ hdr_content_type h)
                  (rq_route rq) (JStr txt) (resp_status resp)) s)"
  using assms
  by (auto simp: handle_response_def decode_content_def handle_bad_response_def split: list.splits)

lemma json_pass:
  assumes "read_headers P resp = Inr h"
    and "hdr_content_type h = ''application/json''"
    and "json_deserialize C (resp_raw_body resp) = Inr body"
  shows "handle_response C P rq resp s =
           classify P rq resp body (s\<lparr>trace := trace s @ [update_event rq h]\<rparr>)"
  using assms by (simp add: handle_response_def decode_content_def)

lemma other_pass:
  assumes "read_headers P resp = Inr h"
    and "hdr_content_type h \<noteq> ''application/json''"
    and "hdr_content_type h \<noteq> ''text/plain''" and "hdr_content_type h \<noteq> ''text/html''"
  shows "handle_response C P rq resp s =
           classify P rq resp JNull (s\<lparr>trace := trace s @ [update_event rq h]\<rparr>)"
  using assms by (simp add: handle_response_def decode_content_def)


section \<open>What a pass adds to the trace\<close>

lemma classify_effect:
  "\<exists>evs. trace (state_of (classify P rq resp body s)) = trace s @ evs
        \<and> list_all after_reply evs
        \<and> resources (state_of (classify P rq resp body s)) = resources s
        \<and> backoff (state_of (classify P rq resp body s)) =
            drop (length (filter is_sleep evs)) (backoff s)"
  by (auto simp: classify_def handle_bad_response_def Let_def
      split: sum.splits prod.splits list.splits)

lemma decode_content_effect:
  "decode_content C P rq resp ct s = Inl stp \<Longrightarrow>
     \<exists>evs. trace (state_of stp) = trace s @ evs \<and> list_all after_reply evs
        \<and> resources (state_of stp) = resources s
        \<and> backoff (state_of stp) = drop (length (filter is_sleep evs)) (backoff s)"
  by (auto simp: decode_content_def handle_bad_response_def Let_def
      split: sum.splits option.splits list.splits if_splits)

lemma handle_response_effect:
  "\<exists>evs. trace (state_of (handle_response C P rq resp s)) = trace s @ evs
        \<and> list_all after_reply evs
        \<and> resources (state_of (handle_response C P rq resp s)) = resources s
        \<and> backoff (state_of (handle_response C P rq resp s)) =
            drop (length (filter is_sleep evs)) (backoff s)"
proof (cases "read_headers P resp")
  case (Inl e)
  then have "handle_response C P rq resp s = Raise e s" by (simp add: handle_response_def)
  then show ?thesis by simp
next
  case h: (Inr h)
  show ?thesis
  proof (cases "decode_content C P rq resp (hdr_content_type h) s")
    case (Inl stp)
    with h have "handle_response C P rq resp s = stp" by (simp add: handle_response_def)
    with decode_content_effect [OF Inl] show ?thesis by simp
  next
    case (Inr body)
    let ?s = "s\<lparr>trace := trace s @ [update_event rq h]\<rparr>"
    from h Inr have eq: "handle_response C P rq resp s = classify P rq resp body ?s"
      by (simp add: handle_response_def)
    obtain evs where e: "trace (state_of (classify P rq resp body ?s)) = trace ?s @ evs"
        "list_all after_reply evs"
        "resources (state_of (classify P rq resp body ?s)) = resources ?s"
        "backoff (state_of (classify P rq resp body ?s)) =
            drop (length (filter is_sleep evs)) (backoff ?s)"
      using classify_effect by blast
    have "trace (state_of (handle_response C P rq resp s)) = trace s @ (update_event rq h # evs)"
      using eq e(1) by simp
    moreover have "list_all after_reply (update_event rq h # evs)"
      using e(2) by (simp add: update_event_def)
    moreover have "resources (state_of (handle_response C P rq resp s)) = resources s"
      using eq e(3) by simp
    moreover have "backoff (state_of (handle_response C P rq resp s)) =
            drop (length (filter is_sleep (update_event rq h # evs))) (backoff s)"
      using eq e(4) by (simp add: update_event_def)
    ultimately show ?thesis by blast
  qed
qed

lemma send_effect:
  "trace (send C rq n s) = trace s @ map Seek [0..<length (resources s)]
       @ [GlobalAcquire, AwaitPermits, Send (the_call C rq) (map content (resources s))]"
  "map content (resources (send C rq n s)) = map content (resources s)"
  "backoff (send C rq n s) = backoff s"
  by (simp_all add: send_def Let_def unread_def seek0_def consume_def comp_def)

lemma pass_effect:
  "\<exists>evs. trace (state_of (handle_response C P rq resp (send C rq n s))) =
           trace s @ map Seek [0..<length (resources s)]
             @ [GlobalAcquire, AwaitPermits, Send (the_call C rq) (map content (resources s))] @ evs
        \<and> list_all after_reply evs
        \<and> map content (resources (state_of (handle_response C P rq resp (send C rq n s)))) =
            map content (resources s)
        \<and> backoff (state_of (handle_response C P rq resp (send C rq n s))) =
            drop (length (filter is_sleep evs)) (backoff s)"
proof -
  obtain evs where e:
    "trace (state_of (handle_response C P rq resp (send C rq n s))) = trace (send C rq n s) @ evs"
    "list_all after_reply evs"
    "resources (state_of (handle_response C P rq resp (send C rq n s))) = resources (send C rq n s)"
    "backoff (state_of (handle_response C P rq resp (send C rq n s))) =
       drop (length (filter is_sleep evs)) (backoff (send C rq n s))"
    using handle_response_effect by blast
  then show ?thesis by (auto simp: send_effect)
qed

text \<open>A property kept by every pass holds of the state the loop ends in.\<close>

lemma loop_induct:
  assumes "Inv s"
    and step: "\<And>s n resp. Inv s \<Longrightarrow> Inv (state_of (handle_response C P rq resp (send C rq n s)))"
  shows "Inv (snd (request_loop C P rq xs s))"
  using assms(1)
proof (induction xs arbitrary: s)
  case Nil
  then show ?case by simp
next
  case (Cons x xs)
  from step [OF Cons.prems, of "reply x" "consumed x"]
  have inv: "Inv (state_of (handle_response C P rq (reply x) (send C rq (consumed x) s)))" .
  show ?case
  proof (cases "handle_response C P rq (reply x) (send C rq (consumed x) s)")
    case (Continue s')
    with inv have "Inv s'" by simp
    then have "Inv (snd (request_loop C P rq xs s'))" by (rule Cons.IH)
    with Continue show ?thesis by simp
  next
    case (Return b s')
    with inv show ?thesis by simp
  next
    case (Raise e s')
    with inv show ?thesis by simp
  qed
qed

lemma after_reply_not_send: "list_all after_reply evs \<Longrightarrow> Send c ps \<notin> set evs"
  by (induction evs) auto

lemma after_reply_no_acquire: "list_all after_reply evs \<Longrightarrow> filter is_bucket_acquire evs = []"
  by (induction evs) (auto elim: after_reply.elims)

lemma gate_after_reply: "list_all after_reply evs \<Longrightarrow> foldl gate_step g evs = g"
proof (induction evs arbitrary: g)
  case Nil
  then show ?case by simp
next
  case (Cons e evs)
  then have "after_reply e" and "list_all after_reply evs" by simp_all
  from \<open>after_reply e\<close> have "gate_step g e = g"
    by (cases e; cases g) simp_all
  with Cons.IH [OF \<open>list_all after_reply evs\<close>] show ?case by simp
qed

lemma gate_seeks: "g \<noteq> Violated \<Longrightarrow> foldl gate_step g (map Seek ns) = g"
  by (induction ns) (cases g; simp)+

lemma rewind_after_reply: "list_all after_reply evs \<Longrightarrow> foldl (rewind_step n) st evs = st"
proof (induction evs arbitrary: st)
  case Nil
  then show ?case by simp
next
  case (Cons e evs)
  then have "after_reply e" and "list_all after_reply evs" by simp_all
  from \<open>after_reply e\<close> have "rewind_step n st e = st"
    by (cases e; cases st) simp_all
  with Cons.IH [OF \<open>list_all after_reply evs\<close>] show ?case by simp
qed

lemma rewind_seeks: "foldl (rewind_step n) (Some k) (map Seek [k..<k + m]) = Some (k + m)"
proof (induction m arbitrary: k)
  case 0
  then show ?case by simp
next
  case (Suc m)
  have "[k..<k + Suc m] = k # [Suc k..<Suc k + m]"
    by (simp add: upt_conv_Cons)
  with Suc [of "Suc k"] show ?case by simp
qed

lemma no_acquire_in_seeks: "filter is_bucket_acquire (map Seek ns) = []"
  by (induction ns) simp_all

lemma no_sleep_in_seeks: "filter is_sleep (map Seek ns) = []"
  by (induction ns) simp_all

lemma send_keeps:
  "backoff (send C rq n s) = backoff s"
  "filter is_sleep (trace (send C rq n s)) = filter is_sleep (trace s)"
  by (simp_all add: send_def Let_def no_sleep_in_seeks)

section \<open>A pass that ends with continue is followed by the next attempt\<close>

lemma loop_extends:
  "\<exists>evs. trace (snd (request_loop C P rq xs s)) = trace s @ evs"
proof (induction xs arbitrary: s)
  case Nil
  then show ?case by simp
next
  case (Cons x xs)
  obtain evs where e: "trace (state_of (handle_response C P rq (reply x) (send C rq (consumed x) s))) =
      trace s @ evs"
    using pass_effect [of C P rq "reply x" "consumed x" s] by auto
  show ?case
  proof (cases "handle_response C P rq (reply x) (send C rq (consumed x) s)")
    case (Continue s')
    with e have "trace s' = trace s @ evs" by simp
    moreover obtain evs' where "trace (snd (request_loop C P rq xs s')) = trace s' @ evs'"
      using Cons.IH by blast
    ultimately show ?thesis using Continue by simp
  next
    case (Return b s')
    with e show ?thesis by simp
  next
    case (Raise err s')
    with e show ?thesis by simp
  qed
qed

lemma next_attempt:
  "\<exists>evs. trace (snd (request_loop C P rq (x # xs) s)) =
     trace s @ map Seek [0..<length (resources s)]
       @ [GlobalAcquire, AwaitPermits, Send (the_call C rq) (map content (resources s))] @ evs"
proof -
  let ?st = "handle_response C P rq (reply x) (send C rq (consumed x) s)"
  obtain evs where e: "trace (state_of ?st) =
      trace s @ map Seek [0..<length (resources s)]
       @ [GlobalAcquire, AwaitPermits, Send (the_call C rq) (map content (resources s))] @ evs"
    using pass_effect [of C P rq "reply x" "consumed x" s] by auto
  show ?thesis
  proof (cases ?st)
    case (Continue s')
    obtain evs' where "trace (snd (request_loop C P rq xs s')) = trace s' @ evs'"
      using loop_extends by blast
    with e Continue show ?thesis by simp
  next
    case (Return b s')
    with e show ?thesis by simp
  next
    case (Raise err s')
    with e show ?thesis by simp
  qed
qed

lemma continue_retries:
  assumes "handle_response C P rq resp (send C rq n s) = Continue s'"
  shows "request_loop C P rq [Exchange n resp] s = (Pending, s')
       \<and> (\<exists>evs. trace (snd (request_loop C P rq (Exchange n resp # x # xs) s)) =
             trace s' @ map Seek [0..<length (resources s)]
               @ [GlobalAcquire, AwaitPermits, Send (the_call C rq) (map content (resources s))]
               @ evs)"
proof -
  have res: "map content (resources s') = map content (resources s)"
    using pass_effect [of C P rq resp n s] assms by auto
  then have len: "length (resources s') = length (resources s)" by (metis length_map)
  have "request_loop C P rq (Exchange n resp # x # xs) s = request_loop C P rq (x # xs) s'"
    using assms by simp
  with next_attempt [of C P rq x xs s'] res len show ?thesis using assms by simp
qed

lemma send_trace: "trace (send C rq n s) = trace s @ attempt_events C rq s"
  by (simp add: attempt_events_def send_effect)

lemma continue_retries_events:
  assumes "handle_response C P rq resp (send C rq n s) = Continue s'"
  shows "request_loop C P rq [Exchange n resp] s = (Pending, s')
       \<and> (\<exists>evs. trace (snd (request_loop C P rq (Exchange n resp # x # xs) s)) =
             trace s' @ attempt_events C rq s @ evs)"
  using continue_retries [OF assms, of x xs] by (simp add: attempt_events_def)

lemma ex_attempt: "attempt_events ex_client ex_request \<lparr>backoff = ds, resources = [], trace = es\<rparr> =
    [GlobalAcquire, AwaitPermits, Send ex_call []]"
  by (simp add: attempt_events_def ex_the_call)

section \<open>The message and the code of an error body\<close>

lemma py_int_errors: "py_int P c = Inl e \<Longrightarrow> e = ValueError \<or> e = TypeError"
  by (cases c) (auto split: option.splits)

lemma error_details_object:
  assumes "\<forall>m c. map_of kvs ''message'' = Some m \<and> map_of kvs ''code'' = Some c \<longrightarrow>
             py_int P c \<noteq> Inl TypeError"
  shows "error_details P (JObj kvs) = Inr (spec_details P kvs)"
proof (cases "map_of kvs ''message''")
  case None
  then show ?thesis by (simp add: error_details_def spec_details_def caught_def)
next
  case m: (Some m)
  show ?thesis
  proof (cases "map_of kvs ''code''")
    case None
    with m show ?thesis by (simp add: error_details_def spec_details_def caught_def)
  next
    case c: (Some c)
    show ?thesis
    proof (cases "py_int P c")
      case (Inl e)
      with assms m c have "e = ValueError" using py_int_errors by blast
      with Inl m c show ?thesis by (simp add: error_details_def spec_details_def caught_def)
    next
      case (Inr n)
      with m c show ?thesis by (simp add: error_details_def spec_details_def)
    qed
  qed
qed

lemma py_int_type_error:
  "py_int P c = Inl TypeError \<longleftrightarrow> c = JNull \<or> (\<exists>xs. c = JArr xs) \<or> (\<exists>kvs. c = JObj kvs)"
  by (cases c) (auto split: option.splits)

section \<open>Conversion to float\<close>

lemma small_int_converts: "\<not> float_overflows 1500" "\<not> float_overflows 250"
  by (simp_all add: float_overflows_def)

lemma huge_int_overflows: "py_float P (JInt (10 ^ 400)) = Inl OverflowError"
  by (simp add: float_overflows_def)

section \<open>A global rate limit\<close>

text \<open>
  C1, as stated, fails. The content type is looked at before the body: a 429 whose body is
  the JSON text of a global rate limit but whose type is \<^verbatim>\<open>text/plain\<close> takes the backoff
  path, and with no delay left it is raised as \<^verbatim>\<open>ServerHTTPError\<close>; under the header
  \<^verbatim>\<open>application/json; charset=utf-8\<close>, which is not the string line 200 compares with,
  the body is never decoded and \<^verbatim>\<open>body["global"]\<close> at line 220 raises \<^verbatim>\<open>TypeError\<close>. In
  neither run is the global limiter throttled.
\<close>

theorem global_flag_outside_exact_json:
  \<open>request ex_client ex_lib ''hash'' [] ex_args
      [Exchange 0 (ex_response 429 ''text/plain'' ''{"global": true, "retry_after": 1500}'')] =
    (Raised (ServerHTTPError ''Received unexpected response of type text/plain'' ex_route
               (JStr ''{"global": true, "retry_after": 1500}'') 429),
     \<lparr>backoff = [], resources = [],
       trace = [BucketAcquire ex_route, GlobalAcquire, AwaitPermits, Send ex_call []]\<rparr>)
   \<and> request ex_client ex_lib ''hash'' [1] ex_args
      [Exchange 0 (ex_response 429 ''application/json; charset=utf-8''
                     ''{"global": true, "retry_after": 1500}'')] =
    (Raised TypeError,
     \<lparr>backoff = [1], resources = [],
       trace = [BucketAcquire ex_route, GlobalAcquire, AwaitPermits, Send ex_call [], ex_update]\<rparr>)\<close>
  by (simp add: ex_run)

lemma json_429_pass:
  assumes "resp_status resp = 429"
    and "read_headers P resp = Inr h" and "hdr_content_type h = ''application/json''"
    and "json_deserialize C (resp_raw_body resp) = Inr (JObj kvs)"
    and "map_of kvs ''global'' = Some g"
    and "truthy g \<longrightarrow> map_of kvs ''retry_after'' = Some v \<and> py_float P v = Inr ms"
  shows "handle_response C P rq resp s =
           Continue (s\<lparr>trace := trace s @ update_event rq h #
                                  (if truthy g then [Throttle (ms / 1000)] else [])\<rparr>)"
proof -
  have "handle_response C P rq resp s =
          classify P rq resp (JObj kvs) (s\<lparr>trace := trace s @ [update_event rq h]\<rparr>)"
    using assms(2-4) by (rule json_pass)
  then show ?thesis
    using assms(1,5,6) by (cases "truthy g") (simp_all add: classify_def)
qed

text \<open>A \<^verbatim>\<open>retry_after\<close> beyond the range of a double leaves line 221 with \<^verbatim>\<open>OverflowError\<close>.\<close>

lemma huge_retry_after_raises:
  assumes "resp_status resp = 429"
  shows "classify P rq resp (JObj [(''global'', JBool True), (''retry_after'', JInt (10 ^ 400))]) s =
           Raise OverflowError s"
  using assms by (simp add: classify_def float_overflows_def)

text \<open>
  C1, amended. For every response with status 429 whose headers can be read (the rate-limit
  headers convert, \<^verbatim>\<open>Date\<close> is there and parses, \<^verbatim>\<open>Content-Type\<close> is there), whose content
  type is exactly \<^verbatim>\<open>application/json\<close>, and whose body decodes to an object with a true
  \<^verbatim>\<open>global\<close> entry and a \<^verbatim>\<open>retry_after\<close> entry that \<^verbatim>\<open>float\<close> converts to \<open>ms\<close>: after the
  transport call the pass updates the bucket manager and throttles the global limiter for
  \<open>ms / 1000\<close> seconds; with no further exchange the call is pending, nothing raised and
  the backoff generator untouched; with a further exchange the next events of the trace
  are those of a new attempt, which rewinds the resources, takes the permits and calls the
  transport again with the same call.
\<close>

theorem global_429_throttles_and_retries:
  assumes "resp_status resp = 429"
    and "read_headers P resp = Inr h"
    and "hdr_content_type h = ''application/json''"
    and "json_deserialize C (resp_raw_body resp) = Inr (JObj kvs)"
    and "map_of kvs ''global'' = Some g" and "truthy g"
    and "map_of kvs ''retry_after'' = Some v" and "py_float P v = Inr ms"
  shows "request_loop C P rq [Exchange n resp] s =
           (Pending, (send C rq n s)\<lparr>trace := trace s @ attempt_events C rq s
                                          @ [update_event rq h, Throttle (ms / 1000)]\<rparr>)
       \<and> (\<exists>evs. trace (snd (request_loop C P rq (Exchange n resp # x # xs) s)) =
             trace s @ attempt_events C rq s @ [update_event rq h, Throttle (ms / 1000)]
               @ attempt_events C rq s @ evs)"
proof -
  let ?s' = "(send C rq n s)\<lparr>trace := trace s @ attempt_events C rq s
                                          @ [update_event rq h, Throttle (ms / 1000)]\<rparr>"
  have "truthy g \<longrightarrow> map_of kvs ''retry_after'' = Some v \<and> py_float P v = Inr ms"
    using assms(7,8) by simp
  from json_429_pass [OF assms(1-5) this, of rq "send C rq n s"] assms(6)
  have "handle_response C P rq resp (send C rq n s) = Continue ?s'"
    by (simp add: send_trace)
  from continue_retries_events [OF this, of x xs] show ?thesis by simp
qed

theorem global_429_throttles_and_retries_witness:
  \<open>request ex_client ex_lib ''hash'' [1] ex_args
      [Exchange 0 (ex_response 429 ''application/json'' ''{"global": true, "retry_after": 1500}'')] =
     (Pending, \<lparr>backoff = [1], resources = [],
        trace = [BucketAcquire ex_route, GlobalAcquire, AwaitPermits, Send ex_call [],
                 ex_update, Throttle (3 / 2)]\<rparr>)
   \<and> (\<exists>evs. trace (snd (request ex_client ex_lib ''hash'' [1] ex_args
      [Exchange 0 (ex_response 429 ''application/json'' ''{"global": true, "retry_after": 1500}''),
       Exchange 0 (ex_response 200 ''application/json'' ''{"url": "wss://gateway.discord.gg"}'')])) =
     [BucketAcquire ex_route, GlobalAcquire, AwaitPermits, Send ex_call [],
      ex_update, Throttle (3 / 2), GlobalAcquire, AwaitPermits, Send ex_call []] @ evs)\<close>
proof -
  let ?resp = \<open>ex_response 429 ''application/json'' ''{"global": true, "retry_after": 1500}''\<close>
  let ?h = "\<lparr>hdr_limit = 1, hdr_remaining = 1, hdr_bucket = ''None'', hdr_reset_date = 0,
       hdr_now_date = 1577836800, hdr_content_type = ''application/json''\<rparr>"
  let ?kvs = "[(''global'', JBool True), (''retry_after'', JInt 1500)]"
  have 1: "resp_status ?resp = 429" by (simp add: ex_response_fields)
  have 2: "read_headers ex_lib ?resp = Inr ?h" by (rule ex_headers)
  have 3: "hdr_content_type ?h = ''application/json''" by simp
  have 4: "json_deserialize ex_client (resp_raw_body ?resp) = Inr (JObj ?kvs)"
    by (simp add: ex_response_fields ex_loads_values)
  have 5: "map_of ?kvs ''global'' = Some (JBool True)" by simp
  have 6: "truthy (JBool True)" by simp
  have 7: "map_of ?kvs ''retry_after'' = Some (JInt 1500)" by simp
  have 8: "py_float ex_lib (JInt 1500) = Inr 1500" by (simp add: small_int_converts)
  show ?thesis
    using global_429_throttles_and_retries [OF 1 2 3 4 5 6 7 8, of ex_request 0
        "initial_state ex_args [1]"
        \<open>Exchange 0 (ex_response 200 ''application/json'' ''{"url": "wss://gateway.discord.gg"}'')\<close>
        "[]"]
    by (simp add: request_def ex_request_fields ex_initial ex_send ex_attempt ex_update_event)
qed

section \<open>The update of the bucket manager\<close>




section \<open>Unexpected content types\<close>

text \<open>
  C3, as stated, fails: a content type other than \<^verbatim>\<open>application/json\<close> is a failure
  only when it is \<^verbatim>\<open>text/plain\<close> or \<^verbatim>\<open>text/html\<close>. On a 200 of type
  \<^verbatim>\<open>application/octet-stream\<close> the \<^verbatim>\<open>else\<close> of line 211 takes \<^verbatim>\<open>None\<close> for the body,
  and \<^verbatim>\<open>None\<close> is returned with the backoff generator untouched.
\<close>

theorem other_content_type_returns_none:
  "request ex_client ex_lib ''hash'' [1] ex_args
      [Exchange 0 (ex_response 200 ''application/octet-stream'' ''ok'')] =
    (Returned JNull, \<lparr>backoff = [1], resources = [],
       trace = [BucketAcquire ex_route, GlobalAcquire, AwaitPermits, Send ex_call [], ex_update]\<rparr>)"
  by (simp add: ex_run)

text \<open>
  C3, amended. For every response whose headers can be read, whose content type is
  \<^verbatim>\<open>text/plain\<close> or \<^verbatim>\<open>text/html\<close>, whose body decodes as text, and whose status is not
  204: with a delay \<open>d\<close> left in the backoff generator the executor takes it, sleeps it and
  goes on to a new attempt (pending when the script ends there, and with a further exchange
  the next events of the trace are a rewinding, the permits and the same transport call);
  with no delay left it raises \<^verbatim>\<open>ServerHTTPError\<close> with the route, the text and the
  status. In neither case is the body returned, and the bucket manager is not updated. For
  every response whose headers can be read and whose content type is none of
  \<^verbatim>\<open>application/json\<close>, \<^verbatim>\<open>text/plain\<close> and \<^verbatim>\<open>text/html\<close>, on a status below 400, the
  executor returns \<^verbatim>\<open>None\<close> after the update and leaves the generator as it was. The
  status 204 with a text type is left out of the statement.
\<close>

theorem text_content_backs_off:
  assumes "read_headers P resp = Inr h"
  shows "((hdr_content_type h = ''text/plain'' \<or> hdr_content_type h = ''text/html'')
            \<and> bytes_decode P (resp_raw_body resp) = Some txt \<and> resp_status resp \<noteq> 204 \<longrightarrow>
          (backoff s = d # ds \<longrightarrow>
             request_loop C P rq [Exchange n resp] s =
               (Pending, (send C rq n s)\<lparr>backoff := ds,
                            trace := trace s @ attempt_events C rq s @ [Sleep d]\<rparr>)
             \<and> (\<exists>evs. trace (snd (request_loop C P rq (Exchange n resp # x # xs) s)) =
                   trace s @ attempt_events C rq s @ [Sleep d] @ attempt_events C rq s @ evs))
          \<and> (backoff s = [] \<longrightarrow>
               request_loop C P rq (Exchange n resp # xs) s =
                 (Raised (ServerHTTPError
                            (''Received unexpected response of type '' @ hdr_content_type h)
                            (rq_route rq) (JStr txt) (resp_status resp)),
                  send C rq n s)))
       \<and> (hdr_content_type h \<noteq> ''application/json'' \<and> hdr_content_type h \<noteq> ''text/plain''
            \<and> hdr_content_type h \<noteq> ''text/html'' \<and> resp_status resp < 400 \<longrightarrow>
          request_loop C P rq (Exchange n resp # xs) s =
            (Returned JNull,
             (send C rq n s)\<lparr>trace := trace s @ attempt_events C rq s @ [update_event rq h]\<rparr>))"
proof (intro conjI impI)
  assume a: "(hdr_content_type h = ''text/plain'' \<or> hdr_content_type h = ''text/html'')
            \<and> bytes_decode P (resp_raw_body resp) = Some txt \<and> resp_status resp \<noteq> 204"
  note pass = text_pass [OF assms, of "txt" C rq "send C rq n s"]
  {
    assume b: "backoff s = d # ds"
    let ?s' = "(send C rq n s)\<lparr>backoff := ds,
                            trace := trace s @ attempt_events C rq s @ [Sleep d]\<rparr>"
    from a b pass have "handle_response C P rq resp (send C rq n s) = Continue ?s'"
      by (simp add: send_keeps send_trace)
    from continue_retries_events [OF this, of x xs]
    show "request_loop C P rq [Exchange n resp] s = (Pending, ?s')" 
      and "\<exists>evs. trace (snd (request_loop C P rq (Exchange n resp # x # xs) s)) =
                   trace s @ attempt_events C rq s @ [Sleep d] @ attempt_events C rq s @ evs"
      by simp_all
  }
  {
    assume b: "backoff s = []"
    from a b pass show "request_loop C P rq (Exchange n resp # xs) s =
                 (Raised (ServerHTTPError
                            (''Received unexpected response of type '' @ hdr_content_type h)
                            (rq_route rq) (JStr txt) (resp_status resp)),
                  send C rq n s)"
      by (simp add: send_keeps)
  }
next
  assume a: "hdr_content_type h \<noteq> ''application/json'' \<and> hdr_content_type h \<noteq> ''text/plain''
            \<and> hdr_content_type h \<noteq> ''text/html'' \<and> resp_status resp < 400"
  with assms have "handle_response C P rq resp (send C rq n s) =
      classify P rq resp JNull ((send C rq n s)\<lparr>trace := trace (send C rq n s) @ [update_event rq h]\<rparr>)"
    by (simp add: other_pass)
  with a show "request_loop C P rq (Exchange n resp # xs) s =
            (Returned JNull,
             (send C rq n s)\<lparr>trace := trace s @ attempt_events C rq s @ [update_event rq h]\<rparr>)"
    by (simp add: classify_def send_trace)
qed

theorem text_content_backs_off_witness:
  \<open>(\<exists>evs. trace (snd (request ex_client ex_lib ''hash'' [1, 2] ex_args
      [Exchange 0 (ex_response 200 ''text/html'' ''<html></html>''),
       Exchange 0 (ex_response 200 ''application/json'' ''{"url": "wss://gateway.discord.gg"}'')])) =
     [BucketAcquire ex_route, GlobalAcquire, AwaitPermits, Send ex_call [], Sleep 1,
      GlobalAcquire, AwaitPermits, Send ex_call []] @ evs)
   \<and> request ex_client ex_lib ''hash'' [] ex_args
        [Exchange 0 (ex_response 200 ''text/html'' ''<html></html>'')] =
      (Raised (ServerHTTPError ''Received unexpected response of type text/html'' ex_route
                 (JStr ''<html></html>'') 200),
       \<lparr>backoff = [], resources = [],
          trace = [BucketAcquire ex_route, GlobalAcquire, AwaitPermits, Send ex_call []]\<rparr>)
   \<and> request ex_client ex_lib ''hash'' [1, 2] ex_args
        [Exchange 0 (ex_response 200 ''image/png'' ''abc'')] =
      (Returned JNull, \<lparr>backoff = [1, 2], resources = [],
          trace = [BucketAcquire ex_route, GlobalAcquire, AwaitPermits, Send ex_call [], ex_update]\<rparr>)\<close>
proof -
  let ?h = "\<lambda>ct. \<lparr>hdr_limit = 1, hdr_remaining = 1, hdr_bucket = ''None'', hdr_reset_date = 0,
       hdr_now_date = 1577836800, hdr_content_type = ct\<rparr>"
  have a: "read_headers ex_lib (ex_response 200 ''text/html'' ''<html></html>'') = Inr (?h ''text/html'')"
    by (rule ex_headers)
  have b: "read_headers ex_lib (ex_response 200 ''image/png'' ''abc'') = Inr (?h ''image/png'')"
    by (rule ex_headers)
  show ?thesis
    using text_content_backs_off [OF a, of "''<html></html>''" "initial_state ex_args [1, 2]" 1 "[2]"
        ex_client ex_request 0
        \<open>Exchange 0 (ex_response 200 ''application/json'' ''{"url": "wss://gateway.discord.gg"}'')\<close>
        "[]"]
      text_content_backs_off [OF a, of "''<html></html>''" "initial_state ex_args []" 1 "[2]"
        ex_client ex_request 0 _ "[]"]
      text_content_backs_off [OF b, of "''abc''" "initial_state ex_args [1, 2]" 1 "[2]"
        ex_client ex_request 0 _ "[]"]
    by (simp add: request_def ex_request_fields ex_initial ex_send ex_attempt ex_update_event
        ex_response_fields ex_decode)
qed

section \<open>Client errors\<close>


text \<open>
  A code that is \<^verbatim>\<open>null\<close> makes \<^verbatim>\<open>int\<close> raise \<^verbatim>\<open>TypeError\<close>, which line 229 does not
  catch.
\<close>

lemma null_code_raises:
  assumes "resp_status resp = 403"
  shows "classify P rq resp (JObj [(''message'', JStr ''Missing Access''), (''code'', JNull)]) s =
           Raise TypeError s"
  using assms by (simp add: classify_def error_details_def caught_def)



section \<open>Rate-limit rejections\<close>

text \<open>
  C6, as stated, fails: a 429 of type \<^verbatim>\<open>text/html\<close> takes the backoff path like every
  response of that type. With a delay left the generator is advanced and the delay slept;
  with none left the rejection is raised to the caller as \<^verbatim>\<open>ServerHTTPError\<close> with status
  429.
\<close>

theorem text_429_uses_backoff:
  "request ex_client ex_lib ''hash'' [1] ex_args [Exchange 0 (ex_response 429 ''text/html'' ''slow down'')] =
    (Pending, \<lparr>backoff = [], resources = [],
       trace = [BucketAcquire ex_route, GlobalAcquire, AwaitPermits, Send ex_call [], Sleep 1]\<rparr>)
   \<and> request ex_client ex_lib ''hash'' [] ex_args [Exchange 0 (ex_response 429 ''text/html'' ''slow down'')] =
    (Raised (ServerHTTPError ''Received unexpected response of type text/html'' ex_route
               (JStr ''slow down'') 429),
     \<lparr>backoff = [], resources = [],
       trace = [BucketAcquire ex_route, GlobalAcquire, AwaitPermits, Send ex_call []]\<rparr>)"
  by (simp add: ex_run)

text \<open>
  C6, amended. For every response with status 429 whose headers can be read, whose content
  type is exactly \<^verbatim>\<open>application/json\<close>, and whose body decodes to an object with a
  \<^verbatim>\<open>global\<close> entry, true or not, and, when it is true, a \<^verbatim>\<open>retry_after\<close> entry that
  \<^verbatim>\<open>float\<close> converts: the pass ends after the update (and the throttle, when global) with
  nothing raised and nothing slept, the backoff generator is where it was, and with a
  further exchange the very next events of the trace are those of a new attempt: the
  rewinding, the permits and the same transport call.
\<close>

theorem json_429_retries_without_backoff:
  assumes "resp_status resp = 429"
    and "read_headers P resp = Inr h" and "hdr_content_type h = ''application/json''"
    and "json_deserialize C (resp_raw_body resp) = Inr (JObj kvs)"
    and "map_of kvs ''global'' = Some g"
    and "truthy g \<longrightarrow> map_of kvs ''retry_after'' = Some v \<and> py_float P v = Inr ms"
  shows "request_loop C P rq [Exchange n resp] s =
           (Pending, (send C rq n s)\<lparr>trace := trace s @ attempt_events C rq s @ update_event rq h #
                                          (if truthy g then [Throttle (ms / 1000)] else [])\<rparr>)
       \<and> backoff (snd (request_loop C P rq [Exchange n resp] s)) = backoff s
       \<and> (\<exists>evs. trace (snd (request_loop C P rq (Exchange n resp # x # xs) s)) =
             trace s @ attempt_events C rq s @ update_event rq h #
               (if truthy g then [Throttle (ms / 1000)] else []) @ attempt_events C rq s @ evs)"
proof -
  let ?s' = "(send C rq n s)\<lparr>trace := trace s @ attempt_events C rq s @ update_event rq h #
                                          (if truthy g then [Throttle (ms / 1000)] else [])\<rparr>"
  from json_429_pass [OF assms, of rq "send C rq n s"]
  have "handle_response C P rq resp (send C rq n s) = Continue ?s'"
    by (simp add: send_trace)
  from continue_retries_events [OF this, of x xs] show ?thesis by (simp add: send_keeps)
qed

theorem json_429_retries_without_backoff_witness:
  \<open>request ex_client ex_lib ''hash'' [1] ex_args
      [Exchange 0 (ex_response 429 ''application/json'' ''{"global": false, "retry_after": 250}'')] =
     (Pending, \<lparr>backoff = [1], resources = [],
        trace = [BucketAcquire ex_route, GlobalAcquire, AwaitPermits, Send ex_call [], ex_update]\<rparr>)
   \<and> (\<exists>evs. trace (snd (request ex_client ex_lib ''hash'' [1] ex_args
      [Exchange 0 (ex_response 429 ''application/json'' ''{"global": false, "retry_after": 250}''),
       Exchange 0 (ex_response 200 ''application/json'' ''{"url": "wss://gateway.discord.gg"}'')])) =
     [BucketAcquire ex_route, GlobalAcquire, AwaitPermits, Send ex_call [],
      ex_update, GlobalAcquire, AwaitPermits, Send ex_call []] @ evs)\<close>
proof -
  let ?resp = \<open>ex_response 429 ''application/json'' ''{"global": false, "retry_after": 250}''\<close>
  let ?h = "\<lparr>hdr_limit = 1, hdr_remaining = 1, hdr_bucket = ''None'', hdr_reset_date = 0,
       hdr_now_date = 1577836800, hdr_content_type = ''application/json''\<rparr>"
  let ?kvs = "[(''global'', JBool False), (''retry_after'', JInt 250)]"
  have 1: "resp_status ?resp = 429" by (simp add: ex_response_fields)
  have 2: "read_headers ex_lib ?resp = Inr ?h" by (rule ex_headers)
  have 3: "hdr_content_type ?h = ''application/json''" by simp
  have 4: "json_deserialize ex_client (resp_raw_body ?resp) = Inr (JObj ?kvs)"
    by (simp add: ex_response_fields ex_loads_values)
  have 5: "map_of ?kvs ''global'' = Some (JBool False)" by simp
  have 6: "truthy (JBool False) \<longrightarrow>
      map_of ?kvs ''retry_after'' = Some (JInt 250) \<and> py_float ex_lib (JInt 250) = Inr 250"
    by simp
  show ?thesis
    using json_429_retries_without_backoff [OF 1 2 3 4 5 6, of ex_request 0
        "initial_state ex_args [1]"
        \<open>Exchange 0 (ex_response 200 ''application/json'' ''{"url": "wss://gateway.discord.gg"}'')\<close>
        "[]"]
    by (simp add: request_def ex_request_fields ex_initial ex_send ex_attempt ex_update_event)
qed

section \<open>Server errors\<close>

text \<open>
  With a body that is a JSON object, a status of 500 or more takes the next delay of the
  backoff generator and retries, or raises \<^verbatim>\<open>ServerHTTPError\<close> when the generator is
  exhausted.
\<close>

lemma server_error_backs_off:
  assumes "500 \<le> resp_status resp"
    and "read_headers P resp = Inr h" and "hdr_content_type h = ''application/json''"
    and "json_deserialize C (resp_raw_body resp) = Inr (JObj kvs)"
    and "\<forall>m c. map_of kvs ''message'' = Some m \<and> map_of kvs ''code'' = Some c \<longrightarrow>
             py_int P c \<noteq> Inl TypeError"
  shows "handle_response C P rq resp s =
     (case backoff s of
        d # ds \<Rightarrow> Continue (s\<lparr>backoff := ds, trace := trace s @ [update_event rq h, Sleep d]\<rparr>)
      | [] \<Rightarrow> Raise (ServerHTTPError ''Received a server error response'' (rq_route rq)
                  (fst (spec_details P kvs)) (resp_status resp))
                (s\<lparr>trace := trace s @ [update_event rq h]\<rparr>))"
proof -
  have "handle_response C P rq resp s =
            classify P rq resp (JObj kvs) (s\<lparr>trace := trace s @ [update_event rq h]\<rparr>)"
    using assms(2-4) by (rule json_pass)
  then show ?thesis
    using assms(1) error_details_object [OF assms(5)]
    by (simp add: classify_def handle_bad_response_def split: prod.splits list.splits)
qed

text \<open>
  A run of such responses one longer than the delays the generator has left ends with
  \<^verbatim>\<open>ServerHTTPError\<close>: the call does not retry for ever.
\<close>

lemma server_errors_exhaust_backoff:
  assumes "\<forall>x \<in> set xs. object_error C P (reply x)"
    and "length xs = Suc (length (backoff s))"
  shows "\<exists>m st s'. request_loop C P rq xs s =
           (Raised (ServerHTTPError ''Received a server error response'' (rq_route rq) m st), s')"
  using assms
proof (induction xs arbitrary: s)
  case Nil
  then show ?case by simp
next
  case (Cons x xs)
  let ?s = "send C rq (consumed x) s"
  from Cons.prems(1) have "object_error C P (reply x)" by simp
  then obtain h kvs where st: "500 \<le> resp_status (reply x)"
    and h: "read_headers P (reply x) = Inr h" "hdr_content_type h = ''application/json''"
      "json_deserialize C (resp_raw_body (reply x)) = Inr (JObj kvs)"
      "\<forall>m c. map_of kvs ''message'' = Some m \<and> map_of kvs ''code'' = Some c \<longrightarrow>
                 py_int P c \<noteq> Inl TypeError"
    by (auto simp: object_error_def)
  note pass = server_error_backs_off [OF st h, of rq ?s]
  show ?case
  proof (cases "backoff s")
    case Nil
    with pass show ?thesis by (simp add: send_keeps)
  next
    case bo: (Cons d ds)
    let ?s' = "?s\<lparr>backoff := ds, trace := trace ?s @ [update_event rq h, Sleep d]\<rparr>"
    from bo pass have "handle_response C P rq (reply x) ?s = Continue ?s'"
      by (simp add: send_keeps)
    then have "request_loop C P rq (x # xs) s = request_loop C P rq xs ?s'" by simp
    moreover from Cons.prems bo have "\<forall>x \<in> set xs. object_error C P (reply x)"
      and "length xs = Suc (length (backoff ?s'))" by simp_all
    then have "\<exists>m st s'. request_loop C P rq xs ?s' =
           (Raised (ServerHTTPError ''Received a server error response'' (rq_route rq) m st), s')"
      by (rule Cons.IH)
    ultimately show ?thesis by simp
  qed
qed

text \<open>
  C4 is not met by every response with a status of 500 or more. The \<^verbatim>\<open>try\<close> of lines
  226-230 catches \<^verbatim>\<open>ValueError\<close> and \<^verbatim>\<open>KeyError\<close>; when the content type is neither
  \<^verbatim>\<open>application/json\<close> nor one of the two text types, line 212 has set \<^verbatim>\<open>body\<close> to
  \<^verbatim>\<open>None\<close>, \<^verbatim>\<open>body["message"]\<close> is a \<^verbatim>\<open>TypeError\<close>, and the call ends with it before the
  backoff generator is consulted. The run is on a 502 of type
  \<^verbatim>\<open>text/html; charset=UTF-8\<close>, with two delays left in the generator.
\<close>

theorem server_error_without_json_body:
  "request ex_client ex_lib ''hash'' [1, 2] ex_args
      [Exchange 0 (ex_response 502 ''text/html; charset=UTF-8'' ''<html>Bad Gateway</html>'')] =
    (Raised TypeError, \<lparr>backoff = [1, 2], resources = [],
       trace = [BucketAcquire ex_route, GlobalAcquire, AwaitPermits, Send ex_call [], ex_update]\<rparr>)"
  by (simp add: ex_run)

section \<open>The no-content status\<close>

text \<open>
  C9 is not met. The store \<^verbatim>\<open>body = None\<close> for status 204 (lines 198-199) is followed by
  an \<^verbatim>\<open>if\<close> on the content type that is not an \<^verbatim>\<open>elif\<close>, so a 204 is dispatched on its
  content type like any other response: with \<^verbatim>\<open>text/plain\<close> it is retried through the
  backoff path (a delay left) or raised as \<^verbatim>\<open>ServerHTTPError\<close> (none left), and with
  \<^verbatim>\<open>application/json\<close> and its empty body the decoding error is raised.
\<close>

theorem no_content_is_not_returned:
  "request ex_client ex_lib ''hash'' [1] ex_args [Exchange 0 (ex_response 204 ''text/plain'' [])] =
    (Pending, \<lparr>backoff = [], resources = [],
       trace = [BucketAcquire ex_route, GlobalAcquire, AwaitPermits, Send ex_call [], Sleep 1]\<rparr>)
   \<and> request ex_client ex_lib ''hash'' [] ex_args [Exchange 0 (ex_response 204 ''text/plain'' [])] =
    (Raised (ServerHTTPError ''Received unexpected response of type text/plain'' ex_route (JStr []) 204),
     \<lparr>backoff = [], resources = [],
       trace = [BucketAcquire ex_route, GlobalAcquire, AwaitPermits, Send ex_call []]\<rparr>)
   \<and> request ex_client ex_lib ''hash'' [1] ex_args [Exchange 0 (ex_response 204 ''application/json'' [])] =
    (Raised ValueError, \<lparr>backoff = [1], resources = [],
       trace = [BucketAcquire ex_route, GlobalAcquire, AwaitPermits, Send ex_call []]\<rparr>)"
  by (simp add: ex_run)

section \<open>Streamed resources\<close>

lemma rewound_pass:
  assumes "rewound cs s"
  shows "rewound cs (state_of (handle_response C P rq resp (send C rq n s)))"
proof -
  let ?s = "state_of (handle_response C P rq resp (send C rq n s))"
  from assms have cs: "map content (resources s) = cs"
    and sends: "\<forall>c ps. Send c ps \<in> set (trace s) \<longrightarrow> ps = cs"
    and run: "foldl (rewind_step (length cs)) (Some 0) (trace s) = Some 0"
    by (simp_all add: rewound_def rewind_run_def)
  from cs have len: "length (resources s) = length cs" by (metis length_map)
  obtain evs where tr: "trace ?s = trace s @ map Seek [0..<length (resources s)]
             @ [GlobalAcquire, AwaitPermits, Send (the_call C rq) (map content (resources s))] @ evs"
    and evs: "list_all after_reply evs"
    and res: "map content (resources ?s) = map content (resources s)"
    using pass_effect [of C P rq resp n s] by blast
  have "\<forall>c ps. Send c ps \<in> set (trace ?s) \<longrightarrow> ps = cs"
    using sends cs after_reply_not_send [OF evs] by (auto simp: tr)
  moreover have "foldl (rewind_step (length cs)) (Some 0) (trace ?s) = Some 0"
    using run rewind_seeks [of "length cs" 0 "length cs"] rewind_after_reply [OF evs]
    by (simp add: tr len)
  ultimately show ?thesis
    using res cs by (simp add: rewound_def rewind_run_def)
qed

lemma rewound_loop:
  "rewound cs s \<Longrightarrow> rewound cs (snd (request_loop C P rq xs s))"
  by (rule loop_induct) (simp_all add: rewound_pass)

lemma has_sent_pass:
  "has_sent e s \<Longrightarrow> has_sent e (state_of (handle_response C P rq resp (send C rq n s)))"
  using pass_effect [of C P rq resp n s] by (auto simp: has_sent_def)

lemma first_pass_sends:
  "has_sent (Send (the_call C rq) (map content (resources s)))
     (state_of (handle_response C P rq resp (send C rq n s)))"
  using pass_effect [of C P rq resp n s] by (auto simp: has_sent_def)

lemma loop_sends:
  assumes "xs \<noteq> []"
  shows "Send (the_call C rq) (map content (resources s)) \<in> set (trace (snd (request_loop C P rq xs s)))"
proof -
  from assms obtain x xs' where xs: "xs = x # xs'" by (cases xs) auto
  let ?e = "Send (the_call C rq) (map content (resources s))"
  let ?st = "handle_response C P rq (reply x) (send C rq (consumed x) s)"
  have first: "has_sent ?e (state_of ?st)" by (rule first_pass_sends)
  have "has_sent ?e (snd (request_loop C P rq xs s))"
  proof (cases ?st)
    case (Continue s')
    with first have "has_sent ?e s'" by simp
    then have "has_sent ?e (snd (request_loop C P rq xs' s'))"
      by (rule loop_induct) (rule has_sent_pass)
    with Continue xs show ?thesis by simp
  next
    case (Return b s')
    with first xs show ?thesis by simp
  next
    case (Raise e s')
    with first xs show ?thesis by simp
  qed
  then show ?thesis by (simp add: has_sent_def)
qed

text \<open>
  C8. Whatever the script of exchanges, the read positions of the streamed resources at the
  call and the number of bytes each transport call reads: every transport call in the trace
  of \<^verbatim>\<open>_request\<close>, the first one included, is given every resource from its first byte,
  so a retry sends the same bytes as the first attempt; in the trace every resource is
  rewound, in order, between two transport calls and before the first; and a call with a
  non-empty script does make a transport call.
\<close>

theorem resources_rewound_before_every_send:
  "(xs \<noteq> [] \<longrightarrow>
      Send (the_call C (the_request C real_hash a)) (map content (arg_resources a))
        \<in> set (trace (snd (request C P real_hash delays a xs))))
   \<and> (\<forall>c ps. Send c ps \<in> set (trace (snd (request C P real_hash delays a xs))) \<longrightarrow>
         ps = map content (arg_resources a))
   \<and> rewind_run (length (arg_resources a)) (trace (snd (request C P real_hash delays a xs))) = Some 0"
proof -
  have "rewound (map content (arg_resources a)) (initial_state a delays)"
    by (simp add: rewound_def initial_state_def rewind_run_def)
  then have "rewound (map content (arg_resources a)) (snd (request C P real_hash delays a xs))"
    unfolding request_def by (rule rewound_loop)
  moreover have "xs \<noteq> [] \<longrightarrow>
      Send (the_call C (the_request C real_hash a)) (map content (arg_resources a))
        \<in> set (trace (snd (request C P real_hash delays a xs)))"
    using loop_sends [of xs C "the_request C real_hash a" "initial_state a delays" P]
    by (simp add: request_def initial_state_def)
  ultimately show ?thesis by (simp add: rewound_def)
qed

lemma ex_upload_request: "the_request ex_client ''hash'' ex_upload = ex_request"
  by (simp add: ex_upload_def ex_request_def the_request_def ex_args_def)

lemma ex_upload_fields:
  "arg_resources ex_upload = [\<lparr>content = ''abc'', pos = 2\<rparr>]" "arg_route ex_upload = ex_route"
  by (simp_all add: ex_upload_def ex_args_def)

text \<open>
  A resource left at position 2 by its owner and read to its end by the first attempt, which
  a 502 answers: both attempts are handed all three bytes.
\<close>

lemma upload_is_sent_whole_twice:
  \<open>request ex_client ex_lib ''hash'' [1] ex_upload
      [Exchange 2 (ex_response 502 ''text/html'' ''bad gateway''),
       Exchange 3 (ex_response 200 ''application/json'' ''{"url": "wss://gateway.discord.gg"}'')] =
    (Returned (JObj [(''url'', JStr ''wss://gateway.discord.gg'')]),
     \<lparr>backoff = [], resources = [\<lparr>content = ''abc'', pos = 3\<rparr>],
       trace = [BucketAcquire ex_route,
                Seek 0, GlobalAcquire, AwaitPermits, Send ex_call [''abc''], Sleep 1,
                Seek 0, GlobalAcquire, AwaitPermits, Send ex_call [''abc''], ex_update]\<rparr>)\<close>
  by (simp add: request_def ex_upload_request initial_state_def ex_upload_fields send_def
      ex_the_call seek0_def unread_def consume_def handle_response_def ex_headers
      ex_update_event decode_content_def ex_response_fields ex_loads_values ex_decode
      handle_bad_response_def classify_def)

theorem resources_rewound_before_every_send_witness:
  \<open>Send ex_call [''abc''] \<in> set (trace (snd (request ex_client ex_lib ''hash'' [1] ex_upload
      [Exchange 2 (ex_response 502 ''text/html'' ''bad gateway''),
       Exchange 3 (ex_response 200 ''application/json'' ''{"url": "wss://gateway.discord.gg"}'')])))
   \<and> [''abc''] = map content (arg_resources ex_upload)
   \<and> rewind_run 1 (trace (snd (request ex_client ex_lib ''hash'' [1] ex_upload
      [Exchange 2 (ex_response 502 ''text/html'' ''bad gateway''),
       Exchange 3 (ex_response 200 ''application/json'' ''{"url": "wss://gateway.discord.gg"}'')])))
     = Some 0\<close>
proof -
  let ?xs = \<open>[Exchange 2 (ex_response 502 ''text/html'' ''bad gateway''),
        Exchange 3 (ex_response 200 ''application/json'' ''{"url": "wss://gateway.discord.gg"}'')]\<close>
  note run = resources_rewound_before_every_send [of ?xs ex_client "''hash''" ex_upload ex_lib "[1]"]
  have "?xs \<noteq> []" by simp
  with run have mem: "Send ex_call [''abc''] \<in> set (trace (snd (request ex_client ex_lib ''hash'' [1] ex_upload ?xs)))"
    by (simp add: ex_upload_request ex_the_call ex_upload_fields)
  have "[''abc''] = map content (arg_resources ex_upload)"
    using run [THEN conjunct2, THEN conjunct1, rule_format, OF mem] .
  moreover have "rewind_run 1 (trace (snd (request ex_client ex_lib ''hash'' [1] ex_upload ?xs))) = Some 0"
    using run by (simp add: ex_upload_fields)
  ultimately show ?thesis using mem by simp
qed

section \<open>Permits\<close>

text \<open>
  C7, as stated, fails: the bucket manager's \<^verbatim>\<open>acquire\<close> is called at line 123, before
  the loop, and the loop awaits the future it returned in every pass. In the run below the
  first attempt is answered with a bucket-scoped 429 and the second with a 200: the trace
  holds two transport calls and one acquisition of the bucket.
\<close>

theorem bucket_acquired_once:
  \<open>request ex_client ex_lib ''hash'' [1] ex_args
      [Exchange 0 (ex_response 429 ''application/json'' ''{"global": false, "retry_after": 250}''),
       Exchange 0 (ex_response 200 ''application/json'' ''{"url": "wss://gateway.discord.gg"}'')] =
    (Returned (JObj [(''url'', JStr ''wss://gateway.discord.gg'')]),
     \<lparr>backoff = [1], resources = [],
       trace = [BucketAcquire ex_route,
                GlobalAcquire, AwaitPermits, Send ex_call [], ex_update,
                GlobalAcquire, AwaitPermits, Send ex_call [], ex_update]\<rparr>)\<close>
  by (simp add: ex_run)

lemma permitted_pass:
  assumes "permitted route (the_call C rq) delays s"
  shows "permitted route (the_call C rq) delays (state_of (handle_response C P rq resp (send C rq n s)))"
proof -
  let ?s = "state_of (handle_response C P rq resp (send C rq n s))"
  from assms obtain rest where rest: "trace s = BucketAcquire route # rest"
      "filter is_bucket_acquire rest = []"
    and gate: "foldl gate_step Idle (trace s) = Idle"
    and sends: "\<forall>c ps. Send c ps \<in> set (trace s) \<longrightarrow> c = the_call C rq"
    and bo: "backoff s = drop (length (filter is_sleep (trace s))) delays"
    by (auto simp: permitted_def gate_run_def)
  obtain evs where tr: "trace ?s = trace s @ map Seek [0..<length (resources s)]
             @ [GlobalAcquire, AwaitPermits, Send (the_call C rq) (map content (resources s))] @ evs"
    and evs: "list_all after_reply evs"
    and bo': "backoff ?s = drop (length (filter is_sleep evs)) (backoff s)"
    using pass_effect [of C P rq resp n s] by blast
  let ?rest = "rest @ map Seek [0..<length (resources s)]
             @ [GlobalAcquire, AwaitPermits, Send (the_call C rq) (map content (resources s))] @ evs"
  have "trace ?s = BucketAcquire route # ?rest" by (simp add: tr rest)
  moreover have "filter is_bucket_acquire ?rest = []"
    using rest(2) after_reply_no_acquire [OF evs] by (simp add: no_acquire_in_seeks)
  ultimately have a: "\<exists>rest. trace ?s = BucketAcquire route # rest \<and> filter is_bucket_acquire rest = []"
    by blast
  have b: "foldl gate_step Idle (trace ?s) = Idle"
    using gate gate_after_reply [OF evs] by (simp add: tr gate_seeks)
  have c: "\<forall>c ps. Send c ps \<in> set (trace ?s) \<longrightarrow> c = the_call C rq"
    using sends after_reply_not_send [OF evs] by (auto simp: tr)
  have d: "backoff ?s = drop (length (filter is_sleep (trace ?s))) delays"
    by (simp add: tr bo' bo no_sleep_in_seeks add.commute)
  from a b c d show ?thesis by (simp add: permitted_def gate_run_def)
qed

lemma permitted_loop:
  "permitted route (the_call C rq) delays s \<Longrightarrow>
   permitted route (the_call C rq) delays (snd (request_loop C P rq xs s))"
  by (rule loop_induct) (simp_all add: permitted_pass)

text \<open>
  C7, amended. Whatever the script of exchanges: the bucket manager's \<^verbatim>\<open>acquire\<close> is called
  once for the whole call of \<^verbatim>\<open>_request\<close>, as its first effect, and never again; every
  transport call, the first and every retry, is made after the global limiter's \<^verbatim>\<open>acquire\<close>
  has been called anew and awaited together with that one bucket future; every transport
  call carries the same method, URL, headers, body, query and form; and one backoff
  generator serves all attempts, advanced by exactly the delays that were slept.
\<close>

theorem permits_per_attempt:
  "(\<exists>rest. trace (snd (request C P real_hash delays a xs)) = BucketAcquire (arg_route a) # rest
            \<and> filter is_bucket_acquire rest = [])
   \<and> gate_run Idle (trace (snd (request C P real_hash delays a xs))) = Idle
   \<and> (\<forall>c ps. Send c ps \<in> set (trace (snd (request C P real_hash delays a xs))) \<longrightarrow>
         c = the_call C (the_request C real_hash a))
   \<and> backoff (snd (request C P real_hash delays a xs)) =
       drop (length (filter is_sleep (trace (snd (request C P real_hash delays a xs))))) delays"
proof -
  have "permitted (arg_route a) (the_call C (the_request C real_hash a)) delays (initial_state a delays)"
    by (simp add: permitted_def initial_state_def gate_run_def)
  then have "permitted (arg_route a) (the_call C (the_request C real_hash a)) delays
               (snd (request C P real_hash delays a xs))"
    unfolding request_def by (rule permitted_loop)
  then show ?thesis by (simp add: permitted_def)
qed

lemma two_attempts:
  \<open>request ex_client ex_lib ''hash'' [1] ex_args
      [Exchange 0 (ex_response 429 ''application/json'' ''{"global": false, "retry_after": 250}''),
       Exchange 0 (ex_response 200 ''application/json'' ''{"url": "wss://gateway.discord.gg"}'')] =
    (Returned (JObj [(''url'', JStr ''wss://gateway.discord.gg'')]),
     \<lparr>backoff = [1], resources = [],
       trace = [BucketAcquire ex_route,
                GlobalAcquire, AwaitPermits, Send ex_call [], ex_update,
                GlobalAcquire, AwaitPermits, Send ex_call [], ex_update]\<rparr>)\<close>
  by (simp add: ex_run)

theorem permits_per_attempt_witness:
  \<open>Send ex_call [] \<in> set (trace (snd (request ex_client ex_lib ''hash'' [1] ex_args
      [Exchange 0 (ex_response 429 ''application/json'' ''{"global": false, "retry_after": 250}''),
       Exchange 0 (ex_response 200 ''application/json'' ''{"url": "wss://gateway.discord.gg"}'')])))
   \<and> ex_call = the_call ex_client (the_request ex_client ''hash'' ex_args)
   \<and> gate_run Idle (trace (snd (request ex_client ex_lib ''hash'' [1] ex_args
      [Exchange 0 (ex_response 429 ''application/json'' ''{"global": false, "retry_after": 250}''),
       Exchange 0 (ex_response 200 ''application/json'' ''{"url": "wss://gateway.discord.gg"}'')])))
     = Idle\<close>
proof -
  let ?xs = \<open>[Exchange 0 (ex_response 429 ''application/json'' ''{"global": false, "retry_after": 250}''),
        Exchange 0 (ex_response 200 ''application/json'' ''{"url": "wss://gateway.discord.gg"}'')]\<close>
  note run = permits_per_attempt [of ex_client ex_lib "''hash''" "[1]" ex_args ?xs]
  have mem: "Send ex_call [] \<in> set (trace (snd (request ex_client ex_lib ''hash'' [1] ex_args ?xs)))"
    by (simp add: two_attempts)
  have "ex_call = the_call ex_client (the_request ex_client ''hash'' ex_args)"
    using run [THEN conjunct2, THEN conjunct2, THEN conjunct1, rule_format, OF mem] .
  moreover have "gate_run Idle (trace (snd (request ex_client ex_lib ''hash'' [1] ex_args ?xs))) = Idle"
    using run by simp
  ultimately show ?thesis using mem by simp
qed

end
